theory Spec2Isabelle
  imports Main
begin

section \<open>Python values, dictionaries and library functions\<close>

text \<open>
  The module \<^verbatim>\<open>optimum/utils/testing_utils.py\<close> works on untyped Python values.
  Parameter values of a test grid are scalars: \<^verbatim>\<open>None\<close>, booleans, integers
  (unbounded) and strings.
\<close>

datatype pyval = PNone | PBool bool | PInt int | PStr string

text \<open>Exceptions that the modelled code can raise.\<close>

datatype py_error = IndexError

text \<open>
  A Python \<^verbatim>\<open>dict\<close> keeps its entries in insertion order and its keys are unique:
  it is an association list. \<^verbatim>\<open>d[k] = v\<close> replaces the value in place when the key is
  present and appends a new entry otherwise.
\<close>

type_synonym ('k, 'v) pydict = "('k \<times> 'v) list"

primrec dict_setitem :: "'k \<Rightarrow> 'v \<Rightarrow> ('k, 'v) pydict \<Rightarrow> ('k, 'v) pydict" where
  "dict_setitem k v [] = [(k, v)]"
| "dict_setitem k v (p # ps) = (if fst p = k then (k, v) # ps else p # dict_setitem k v ps)"

text \<open>\<^verbatim>\<open>dict(items)\<close>: the entries are stored one after the other, from an empty dictionary.\<close>

definition dict_of_items :: "('k \<times> 'v) list \<Rightarrow> ('k, 'v) pydict" where
  "dict_of_items items = fold (\<lambda>(k, v) d. dict_setitem k v d) items []"

text \<open>\<^verbatim>\<open>d.get(k)\<close>, the lookup of a key.\<close>

definition dict_get :: "('k, 'v) pydict \<Rightarrow> 'k \<Rightarrow> 'v option" where
  "dict_get d k = map_of d k"

text \<open>\<^verbatim>\<open>str(n)\<close> for an integer: the decimal digits, with a minus sign when negative.\<close>

definition digit_char :: "nat \<Rightarrow> char" where
  "digit_char n = ''0123456789'' ! n"

function str_nat :: "nat \<Rightarrow> string" where
  "str_nat n = (if n < 10 then [digit_char n] else str_nat (n div 10) @ [digit_char (n mod 10)])"
  by pat_completeness auto
termination
  by (relation "measure (\<lambda>n. n)") auto

declare str_nat.simps [simp del]

fun py_str :: "pyval \<Rightarrow> string" where
  "py_str PNone = ''None''"
| "py_str (PBool b) = (if b then ''True'' else ''False'')"
| "py_str (PInt i) = (if i < 0 then CHR ''-'' # str_nat (nat (- i)) else str_nat (nat i))"
| "py_str (PStr s) = s"

text \<open>\<^verbatim>\<open>sep.join(parts)\<close>.\<close>

fun str_join :: "string \<Rightarrow> string list \<Rightarrow> string" where
  "str_join sep [] = []"
| "str_join sep [s] = s"
| "str_join sep (s # t # ts) = s @ sep @ str_join sep (t # ts)"

text \<open>
  \<^verbatim>\<open>itertools.product(*iterables)\<close>: all selections of one element per iterable, the
  rightmost position advancing fastest; with no iterable, the single empty selection.
\<close>

fun itertools_product :: "'a list list \<Rightarrow> 'a list list" where
  "itertools_product [] = [[]]"
| "itertools_product (xs # xss) =
     concat (map (\<lambda>x. map (\<lambda>ys. x # ys) (itertools_product xss)) xs)"

section \<open>flatten_dict\<close>

text \<open>
  The values of a nested dictionary are either mappings (instances of
  \<^verbatim>\<open>MutableMapping\<close>) or anything else.
  \<^verbatim>\<open>
  def flatten_dict(dictionary: Dict):
      items = []
      for k, v in dictionary.items():
          new_key = k
          if isinstance(v, MutableMapping):
              items.extend(flatten_dict(v).items())
          else:
              items.append((new_key, v))
      return dict(items)
  \<close>
  \<open>flatten_loop\<close> is the loop, with the list \<open>items\<close> as its accumulator.
\<close>

datatype ('k, 'v) nested = Leaf 'v | Mapping "('k \<times> ('k, 'v) nested) list"

fun flatten_dict :: "('k \<times> ('k, 'v) nested) list \<Rightarrow> ('k, 'v) pydict"
  and flatten_loop :: "('k \<times> 'v) list \<Rightarrow> ('k \<times> ('k, 'v) nested) list \<Rightarrow> ('k \<times> 'v) list" where
  "flatten_dict dictionary = dict_of_items (flatten_loop [] dictionary)"
| "flatten_loop items [] = items"
| "flatten_loop items ((k, Mapping v) # rest) = flatten_loop (items @ flatten_dict v) rest"
| "flatten_loop items ((k, Leaf v) # rest) = flatten_loop (items @ [(k, v)]) rest"

text \<open>
  The leaf entries of a nested dictionary, at any depth, in iteration order: the
  reference that \<open>flatten_dict\<close> is compared with.
\<close>

fun leaf_items :: "('k \<times> ('k, 'v) nested) list \<Rightarrow> ('k \<times> 'v) list" where
  "leaf_items [] = []"
| "leaf_items ((k, Mapping v) # rest) = leaf_items v @ leaf_items rest"
| "leaf_items ((k, Leaf v) # rest) = (k, v) # leaf_items rest"

section \<open>grid_parameters\<close>

text \<open>
  \<^verbatim>\<open>
  def grid_parameters(parameters, yield_dict=False, add_test_name=True,
                      filter_params_func=None):
      for params in itertools.product(*parameters.values()):
          if filter_params_func is not None:
              params = filter_params_func(list(params))
              if params is None:
                  continue

          test_name = "_".join([str(param) for param in params])
          if yield_dict is True:
              res_dict = {}
              for i, key in enumerate(parameters.keys()):
                  res_dict[key] = params[i]
              if add_test_name is True:
                  res_dict["test_name"] = test_name
              yield res_dict
          else:
              returned_list = [test_name] + list(params) if add_test_name is True else list(params)
              yield returned_list
  \<close>
  The parameter space is a dictionary from names to lists of values. The filter function
  is absent (\<open>None\<close>) or maps a combination to \<^verbatim>\<open>None\<close> (\<open>None\<close>) or to a
  sequence of values. An emitted item is a list or a dictionary. The generator is
  modelled by the list of the items it yields and the exception, if any, that ends the
  iteration.
\<close>

type_synonym parameter_space = "(string, pyval list) pydict"

type_synonym filter_func = "pyval list \<Rightarrow> pyval list option"

datatype emitted = EList "pyval list" | EDict "(string, pyval) pydict"

text \<open>
  The inner loop \<^verbatim>\<open>for i, key in enumerate(parameters.keys()): res_dict[key] = params[i]\<close>;
  \<^verbatim>\<open>params[i]\<close> raises \<^verbatim>\<open>IndexError\<close> when \<open>i\<close> is not below the length of \<open>params\<close>.
\<close>

fun fill_dict ::
  "nat \<Rightarrow> string list \<Rightarrow> pyval list \<Rightarrow> (string, pyval) pydict \<Rightarrow> py_error + (string, pyval) pydict"
where
  "fill_dict i [] params res_dict = Inr res_dict"
| "fill_dict i (key # keys) params res_dict =
     (if i < length params
      then fill_dict (Suc i) keys params (dict_setitem key (params ! i) res_dict)
      else Inl IndexError)"

text \<open>The outer loop, over the combinations that \<^verbatim>\<open>itertools.product\<close> produces.\<close>

fun grid_loop ::
  "string list \<Rightarrow> bool \<Rightarrow> bool \<Rightarrow> filter_func option \<Rightarrow> pyval list list
     \<Rightarrow> emitted list \<times> py_error option"
where
  "grid_loop keys yield_dict add_test_name filter_params_func [] = ([], None)"
| "grid_loop keys yield_dict add_test_name filter_params_func (params0 # rest) =
     (case (case filter_params_func of None \<Rightarrow> Some params0 | Some f \<Rightarrow> f params0) of
        None \<Rightarrow> grid_loop keys yield_dict add_test_name filter_params_func rest
      | Some params \<Rightarrow>
          (let test_name = str_join ''_'' (map py_str params) in
           if yield_dict then
             (case fill_dict 0 keys params [] of
                Inl e \<Rightarrow> ([], Some e)
              | Inr res_dict \<Rightarrow>
                  (let res_dict' =
                         (if add_test_name
                          then dict_setitem ''test_name'' (PStr test_name) res_dict
                          else res_dict);
                       (items, err) = grid_loop keys yield_dict add_test_name filter_params_func rest
                   in (EDict res_dict' # items, err)))
           else
             (let returned_list = (if add_test_name then PStr test_name # params else params);
                  (items, err) = grid_loop keys yield_dict add_test_name filter_params_func rest
              in (EList returned_list # items, err))))"

definition grid_parameters ::
  "parameter_space \<Rightarrow> bool \<Rightarrow> bool \<Rightarrow> filter_func option \<Rightarrow> emitted list \<times> py_error option"
where
  "grid_parameters parameters yield_dict add_test_name filter_params_func =
     grid_loop (map fst parameters) yield_dict add_test_name filter_params_func
       (itertools_product (map snd parameters))"

text \<open>
  The combinations that reach the naming step: all of them without a filter function,
  and with one the rewritten combinations that it did not exclude.
\<close>

definition rewritten :: "filter_func option \<Rightarrow> pyval list list \<Rightarrow> pyval list list" where
  "rewritten filter_params_func combos =
     (case filter_params_func of None \<Rightarrow> combos | Some f \<Rightarrow> List.map_filter f combos)"

section \<open>Auxiliary facts about lists and maps\<close>

lemma set_map_filter:
  "set (List.map_filter f xs) = {y. \<exists>x \<in> set xs. f x = Some y}"
  by (induction xs) (auto split: option.splits)

lemma length_map_filter:
  "length (List.map_filter f xs) = length (filter (\<lambda>x. f x \<noteq> None) xs)"
  by (simp add: List.map_filter_def)

lemma length_takeWhile_less:
  "x \<in> set xs \<Longrightarrow> \<not> P x \<Longrightarrow> length (takeWhile P xs) < length xs"
  by (induction xs) auto

lemma map_of_rev_distinct:
  "distinct (map fst xs) \<Longrightarrow> map_of (rev xs) = map_of xs"
proof (induction xs)
  case Nil
  then show ?case by simp
next
  case (Cons p xs)
  then have "map_of xs (fst p) = None"
    by (simp add: map_of_eq_None_iff)
  with Cons show ?case
    by (auto simp: fun_eq_iff map_add_def split: option.splits)
qed

lemma zip_take_length: "zip xs ys = zip xs (take (length xs) ys)"
proof (induction xs arbitrary: ys)
  case Nil
  show ?case by simp
next
  case (Cons x xs)
  then show ?case by (cases ys) simp_all
qed

section \<open>Properties of the dictionary operations\<close>

lemma map_of_dict_setitem:
  "map_of (dict_setitem k v d) = (map_of d)(k \<mapsto> v)"
  by (induction d) auto

lemma keys_dict_setitem:
  "fst ` set (dict_setitem k v d) = insert k (fst ` set d)"
  by (induction d) auto

lemma distinct_dict_setitem:
  "distinct (map fst d) \<Longrightarrow> distinct (map fst (dict_setitem k v d))"
  by (induction d) (auto simp: keys_dict_setitem)

lemma dict_setitem_fresh:
  "k \<notin> fst ` set d \<Longrightarrow> dict_setitem k v d = d @ [(k, v)]"
  by (induction d) auto

lemma fold_setitem_map_of:
  "map_of (fold (\<lambda>(k, v) d. dict_setitem k v d) items d) = map_of d ++ map_of (rev items)"
  by (induction items arbitrary: d) (auto simp: map_of_dict_setitem)

lemma fold_setitem_keys:
  "fst ` set (fold (\<lambda>(k, v) d. dict_setitem k v d) items d) = fst ` set d \<union> fst ` set items"
proof (induction items arbitrary: d)
  case Nil
  then show ?case by simp
next
  case (Cons p items)
  obtain k v where p: "p = (k, v)" by (cases p)
  have "fst ` set (fold (\<lambda>(k, v) d. dict_setitem k v d) items (dict_setitem k v d)) =
        insert k (fst ` set d) \<union> fst ` set items"
    by (simp only: Cons.IH keys_dict_setitem)
  with p show ?case by simp
qed

lemma fold_setitem_distinct:
  "distinct (map fst d) \<Longrightarrow> distinct (map fst (fold (\<lambda>(k, v) d. dict_setitem k v d) items d))"
  by (induction items arbitrary: d) (auto simp: distinct_dict_setitem)

lemma map_of_dict_of_items: "map_of (dict_of_items items) = map_of (rev items)"
  by (simp add: dict_of_items_def fold_setitem_map_of)

lemma keys_dict_of_items: "fst ` set (dict_of_items items) = fst ` set items"
  by (simp add: dict_of_items_def fold_setitem_keys)

lemma distinct_dict_of_items: "distinct (map fst (dict_of_items items))"
  by (simp add: dict_of_items_def fold_setitem_distinct)

lemma keys_dict_setitem_present:
  "k \<in> fst ` set d \<Longrightarrow> map fst (dict_setitem k v d) = map fst d"
  by (induction d) auto

lemma length_dict_setitem_present:
  "k \<in> fst ` set d \<Longrightarrow> length (dict_setitem k v d) = length d"
  by (induction d) auto

lemma dict_of_items_zip_keys:
  "length keys \<le> length c \<Longrightarrow> fst ` set (dict_of_items (zip keys c)) = set keys"
proof -
  assume "length keys \<le> length c"
  then have "map fst (zip keys c) = keys"
    by (simp add: map_fst_zip_take)
  then have "fst ` set (zip keys c) = set keys"
    by (metis set_map)
  then show ?thesis by (simp add: keys_dict_of_items)
qed

lemma dict_of_items_zip_get:
  assumes "distinct keys" and "length keys \<le> length c" and "i < length keys"
  shows "map_of (dict_of_items (zip keys c)) (keys ! i) = Some (c ! i)"
proof -
  let ?c = "take (length keys) c"
  have z: "zip keys c = zip keys ?c"
    by (rule zip_take_length)
  have len: "length keys = length ?c" using assms(2) by simp
  have d: "distinct (map fst (zip keys ?c))"
    using assms(1) len by simp
  have "map_of (dict_of_items (zip keys c)) (keys ! i) = map_of (zip keys ?c) (keys ! i)"
    using d by (simp add: map_of_dict_of_items z map_of_rev_distinct)
  also have "\<dots> = Some (?c ! i)"
    using len assms(1) assms(3) by (simp add: map_of_zip_nth)
  finally show ?thesis using assms(3) by simp
qed

section \<open>Properties of the Cartesian product\<close>

lemma length_itertools_product:
  "length (itertools_product xss) = prod_list (map length xss)"
  by (induction xss) (simp_all add: length_concat comp_def sum_list_triv)

lemma itertools_product_length:
  "c \<in> set (itertools_product xss) \<Longrightarrow> length c = length xss"
  by (induction xss arbitrary: c) auto

lemma itertools_product_nth:
  "c \<in> set (itertools_product xss) \<Longrightarrow> i < length xss \<Longrightarrow> c ! i \<in> set (xss ! i)"
proof (induction xss arbitrary: c i)
  case Nil
  then show ?case by simp
next
  case (Cons xs xss)
  then show ?case by (cases i) auto
qed

lemma itertools_product_empty:
  "[] \<in> set xss \<Longrightarrow> itertools_product xss = []"
  by (induction xss) auto

section \<open>The loops of grid_parameters\<close>

lemma fill_dict_short:
  "keys \<noteq> [] \<Longrightarrow> length params < i + length keys \<Longrightarrow>
   fill_dict i keys params d = Inl IndexError"
proof (induction i keys params d rule: fill_dict.induct)
  case (1 i params res_dict)
  then show ?case by simp
next
  case (2 i key keys params res_dict)
  show ?case
  proof (cases "i < length params")
    case True
    with 2(3) have "keys \<noteq> []" by auto
    with 2 True show ?thesis by simp
  next
    case False
    then show ?thesis by simp
  qed
qed

lemma fill_dict_long:
  "i + length keys \<le> length params \<Longrightarrow>
   fill_dict i keys params d =
     Inr (fold (\<lambda>(k, v) d. dict_setitem k v d) (zip keys (drop i params)) d)"
proof (induction i keys params d rule: fill_dict.induct)
  case (1 i params res_dict)
  then show ?case by simp
next
  case (2 i key keys params res_dict)
  then have "drop i params = params ! i # drop (Suc i) params"
    by (simp add: Cons_nth_drop_Suc)
  with 2 show ?case by simp
qed

lemma fill_dict_0:
  "fill_dict 0 keys params [] =
     (if length keys \<le> length params then Inr (dict_of_items (zip keys params)) else Inl IndexError)"
  by (cases keys) (simp_all add: fill_dict_short fill_dict_long dict_of_items_def del: fill_dict.simps)

lemma grid_loop_rewritten:
  "grid_loop keys yd atn f combos = grid_loop keys yd atn None (rewritten f combos)"
proof (cases f)
  case None
  then show ?thesis by (simp add: rewritten_def)
next
  case (Some g)
  have "grid_loop keys yd atn (Some g) combos = grid_loop keys yd atn None (List.map_filter g combos)"
  proof (induction combos)
    case Nil
    show ?case by simp
  next
    case (Cons c cs)
    show ?case
    proof (cases "g c")
      case None
      with Cons show ?thesis by simp
    next
      case (Some c')
      then show ?thesis
        by (simp only: grid_loop.simps option.case map_filter_simps Cons.IH)
    qed
  qed
  with Some show ?thesis by (simp add: rewritten_def)
qed

lemma grid_loop_list:
  "grid_loop keys False atn None cs =
     (map (\<lambda>c. EList (if atn then PStr (str_join ''_'' (map py_str c)) # c else c)) cs, None)"
  by (induction cs) (auto split: prod.splits)

lemma grid_loop_dict:
  "grid_loop keys True atn None cs =
     (map (\<lambda>c. EDict (if atn
                       then dict_setitem ''test_name'' (PStr (str_join ''_'' (map py_str c)))
                              (dict_of_items (zip keys c))
                       else dict_of_items (zip keys c)))
        (takeWhile (\<lambda>c. length keys \<le> length c) cs),
      if \<forall>c\<in>set cs. length keys \<le> length c then None else Some IndexError)"
  by (induction cs) (auto simp: fill_dict_0 split: prod.splits)

section \<open>The loop of flatten_dict\<close>

lemma flatten_loop_acc:
  "flatten_loop items d = items @ flatten_loop [] d"
proof (induction d arbitrary: items)
  case Nil
  show ?case by simp
next
  case (Cons p rest)
  obtain k v where p: "p = (k, v)" by (cases p)
  show ?case
  proof (cases v)
    case (Leaf x)
    with p show ?thesis
      using Cons [of "items @ [(k, x)]"] Cons [of "[(k, x)]"] by simp
  next
    case (Mapping m)
    with p show ?thesis
      using Cons [of "items @ flatten_dict m"] Cons [of "flatten_dict m"]
      by (simp del: flatten_dict.simps)
  qed
qed

lemma flatten_loop_Mapping:
  "flatten_loop [] ((k, Mapping m) # rest) = flatten_dict m @ flatten_loop [] rest"
  using flatten_loop_acc [of "flatten_dict m" rest] by (simp del: flatten_dict.simps)

lemma flatten_loop_Leaf:
  "flatten_loop [] ((k, Leaf x) # rest) = (k, x) # flatten_loop [] rest"
  using flatten_loop_acc [of "[(k, x)]" rest] by simp

lemma flatten_loop_leaf_items:
  "map_of (rev (flatten_loop [] d)) = map_of (rev (leaf_items d))"
proof (induction d rule: leaf_items.induct)
  case 1
  show ?case by simp
next
  case (2 k m rest)
  have "map_of (rev (flatten_dict m)) = map_of (flatten_dict m)"
    by (simp add: map_of_rev_distinct distinct_dict_of_items)
  also have "\<dots> = map_of (rev (leaf_items m))"
    by (simp add: map_of_dict_of_items 2)
  finally show ?case
    by (simp add: flatten_loop_Mapping 2 del: flatten_dict.simps flatten_loop.simps)
next
  case (3 k x rest)
  then show ?case by (simp add: flatten_loop_Leaf del: flatten_loop.simps)
qed

section \<open>Claims about grid_parameters\<close>

text \<open>
  C1. Without a filter function, for parameters with value lists of sizes \<open>s1 .. sN\<close>,
  the generator ends without an exception after emitting exactly \<open>s1 * ... * sN\<close> items,
  whatever the two flags are. With both flags off the items are the combinations of the
  Cartesian product themselves, and every combination has length \<open>N\<close> with a value of
  the \<open>i\<close>-th parameter at position \<open>i\<close> (key order).
\<close>

theorem grid_parameters_count:
  "snd (grid_parameters parameters yield_dict add_test_name None) = None \<and>
   length (fst (grid_parameters parameters yield_dict add_test_name None)) =
     prod_list (map (\<lambda>p. length (snd p)) parameters) \<and>
   fst (grid_parameters parameters False False None) =
     map EList (itertools_product (map snd parameters)) \<and>
   (\<forall>c \<in> set (itertools_product (map snd parameters)).
      length c = length parameters \<and>
      (\<forall>i < length parameters. c ! i \<in> set (snd (parameters ! i))))"
proof -
  let ?cs = "itertools_product (map snd parameters)"
  have len: "\<forall>c \<in> set ?cs. length (map fst parameters) \<le> length c"
    by (simp add: itertools_product_length)
  have tw: "takeWhile (\<lambda>c. length parameters \<le> length c) ?cs = ?cs"
    using len by (simp add: takeWhile_eq_all_conv)
  have "snd (grid_parameters parameters yield_dict add_test_name None) = None"
    using len
    by (cases yield_dict) (simp_all add: grid_parameters_def grid_loop_list grid_loop_dict)
  moreover have "length (fst (grid_parameters parameters yield_dict add_test_name None)) =
      prod_list (map (\<lambda>p. length (snd p)) parameters)"
    by (cases yield_dict)
       (simp_all add: grid_parameters_def grid_loop_list grid_loop_dict tw
          length_itertools_product comp_def)
  moreover have "fst (grid_parameters parameters False False None) = map EList ?cs"
    by (simp add: grid_parameters_def grid_loop_list)
  moreover have "\<forall>c \<in> set ?cs. length c = length parameters \<and>
      (\<forall>i < length parameters. c ! i \<in> set (snd (parameters ! i)))"
  proof (intro ballI conjI allI impI)
    fix c assume c: "c \<in> set ?cs"
    then show "length c = length parameters"
      by (simp add: itertools_product_length)
    fix i assume "i < length parameters"
    with c show "c ! i \<in> set (snd (parameters ! i))"
      using itertools_product_nth [of c "map snd parameters" i] by simp
  qed
  ultimately show ?thesis by blast
qed

theorem grid_parameters_count_witness:
  "length (fst (grid_parameters [(''a'', [PInt 1, PInt 2, PInt 3]), (''b'', [PBool True, PNone])]
      True True None)) = 6 \<and>
   [PInt 3, PNone] \<in> set (itertools_product [[PInt 1, PInt 2, PInt 3], [PBool True, PNone]]) \<and>
   [PInt 3, PNone] ! 1 \<in> set [PBool True, PNone]"
  using grid_parameters_count
    [of "[(''a'', [PInt 1, PInt 2, PInt 3]), (''b'', [PBool True, PNone])]" True True]
  by simp

text \<open>
  C2 (amended). Let the keys of the parameter space be unique, as they are in a
  dictionary, and take any item emitted with \<^verbatim>\<open>yield_dict=True\<close>, the \<open>n\<close>-th, say. It is
  a dictionary in which every parameter key is present. The item belongs to the \<open>n\<close>-th
  combination that reached the naming step (the \<open>n\<close>-th combination of the Cartesian
  product when there is no filter function, and then nothing is raised and every
  combination has its item), and the value of the \<open>i\<close>-th key is the value in slot \<open>i\<close> of
  that combination, except for a key \<^verbatim>\<open>"test_name"\<close> when \<^verbatim>\<open>add_test_name=True\<close>: with
  \<^verbatim>\<open>add_test_name=True\<close> the entry of \<^verbatim>\<open>"test_name"\<close> holds the test name, the values of
  that combination converted to text and joined with \<^verbatim>\<open>"_"\<close>.
\<close>

theorem grid_parameters_dict_slots:
  assumes "distinct (map fst parameters)"
    and "grid_parameters parameters True add_test_name filter_params_func = (items, err)"
    and "n < length items" and "i < length parameters"
  shows "n < length (rewritten filter_params_func (itertools_product (map snd parameters))) \<and>
     (\<exists>d. items ! n = EDict d \<and> fst (parameters ! i) \<in> fst ` set d \<and>
        (\<not> (add_test_name \<and> fst (parameters ! i) = ''test_name'') \<longrightarrow>
           dict_get d (fst (parameters ! i)) =
             Some (rewritten filter_params_func (itertools_product (map snd parameters)) ! n ! i)) \<and>
        (add_test_name \<longrightarrow>
           dict_get d ''test_name'' =
             Some (PStr (str_join ''_'' (map py_str
               (rewritten filter_params_func (itertools_product (map snd parameters)) ! n)))))) \<and>
     (filter_params_func = None \<longrightarrow>
        err = None \<and> length items = length (itertools_product (map snd parameters)))"
proof -
  let ?keys = "map fst parameters"
  let ?rw = "rewritten filter_params_func (itertools_product (map snd parameters))"
  let ?tw = "takeWhile (\<lambda>c. length ?keys \<le> length c) ?rw"
  let ?name = "\<lambda>c. PStr (str_join ''_'' (map py_str c))"
  let ?mk = "\<lambda>c. EDict (if add_test_name
                       then dict_setitem ''test_name'' (?name c) (dict_of_items (zip ?keys c))
                       else dict_of_items (zip ?keys c))"
  have run: "grid_parameters parameters True add_test_name filter_params_func =
      (map ?mk ?tw, if \<forall>c \<in> set ?rw. length ?keys \<le> length c then None else Some IndexError)"
    unfolding grid_parameters_def
    by (subst grid_loop_rewritten) (rule grid_loop_dict)
  from run assms(2) have items: "items = map ?mk ?tw"
    and err: "err = (if \<forall>c \<in> set ?rw. length ?keys \<le> length c then None else Some IndexError)"
    by simp_all
  from items assms(3) have n: "n < length ?tw" by simp
  then have nrw: "n < length ?rw"
    using length_takeWhile_le [of "\<lambda>c. length ?keys \<le> length c" ?rw] by linarith
  let ?c = "?rw ! n"
  have twn: "?tw ! n = ?c" using n by (rule takeWhile_nth)
  have "?tw ! n \<in> set ?tw" using n by (rule nth_mem)
  then have "length ?keys \<le> length (?tw ! n)" by (blast dest: set_takeWhileD)
  then have long: "length ?keys \<le> length ?c" by (simp only: twn)
  let ?base = "dict_of_items (zip ?keys ?c)"
  let ?d = "if add_test_name then dict_setitem ''test_name'' (?name ?c) ?base else ?base"
  let ?k = "fst (parameters ! i)"
  have k: "?k = ?keys ! i" using assms(4) by simp
  have item: "items ! n = EDict ?d"
    using n by (simp only: items nth_map twn)
  have "?k \<in> set ?keys" using assms(4) by simp
  then have "?k \<in> fst ` set ?base"
    using long by (simp only: dict_of_items_zip_keys)
  then have present: "?k \<in> fst ` set ?d"
    by (simp add: keys_dict_setitem)
  have get0: "map_of ?base ?k = Some (?c ! i)"
    unfolding k using assms(1) long by (rule dict_of_items_zip_get) (use assms(4) in simp)
  have val: "dict_get ?d ?k = Some (?c ! i)" if "\<not> (add_test_name \<and> ?k = ''test_name'')"
    using that get0 by (auto simp: dict_get_def map_of_dict_setitem)
  have name: "dict_get ?d ''test_name'' = Some (?name ?c)" if add_test_name
    using that by (simp add: dict_get_def map_of_dict_setitem)
  have nofilter: "err = None \<and> length items = length (itertools_product (map snd parameters))"
    if "filter_params_func = None"
  proof -
    have rw: "?rw = itertools_product (map snd parameters)"
      using that by (simp add: rewritten_def)
    have all: "\<forall>c \<in> set ?rw. length ?keys \<le> length c"
      by (simp add: rw itertools_product_length)
    then have "?tw = ?rw" by (simp only: takeWhile_eq_all_conv)
    then have "length items = length ?rw" by (simp only: items length_map)
    moreover from all have "err = None" unfolding err by (rule if_P)
    ultimately show ?thesis by (simp only: rw simp_thms)
  qed
  from nrw item present val name nofilter show ?thesis by blast
qed

theorem grid_parameters_dict_slots_witness:
  "distinct (map fst [(''a'', [PInt 1, PInt 2]), (''b'', [PStr ''x''])]) \<and>
   grid_parameters [(''a'', [PInt 1, PInt 2]), (''b'', [PStr ''x''])] True True None =
     ([EDict [(''a'', PInt 1), (''b'', PStr ''x''), (''test_name'', PStr ''1_x'')],
       EDict [(''a'', PInt 2), (''b'', PStr ''x''), (''test_name'', PStr ''2_x'')]], None) \<and>
   dict_get [(''a'', PInt 2), (''b'', PStr ''x''), (''test_name'', PStr ''2_x'')] ''a'' =
     Some (itertools_product (map snd [(''a'', [PInt 1, PInt 2]), (''b'', [PStr ''x''])]) ! 1 ! 0) \<and>
   dict_get [(''a'', PInt 2), (''b'', PStr ''x''), (''test_name'', PStr ''2_x'')] ''test_name'' =
     Some (PStr (str_join ''_'' (map py_str
       (itertools_product (map snd [(''a'', [PInt 1, PInt 2]), (''b'', [PStr ''x''])]) ! 1))))"
proof -
  let ?P = "[(''a'', [PInt 1, PInt 2]), (''b'', [PStr ''x''])]"
  let ?items = "[EDict [(''a'', PInt 1), (''b'', PStr ''x''), (''test_name'', PStr ''1_x'')],
       EDict [(''a'', PInt 2), (''b'', PStr ''x''), (''test_name'', PStr ''2_x'')]]"
  have h1: "distinct (map fst ?P)" by simp
  have h2: "grid_parameters ?P True True None = (?items, None)"
    by (simp add: grid_parameters_def str_nat.simps digit_char_def)
  have h3: "1 < length ?items" by simp
  have h4: "0 < length ?P" by simp
  from grid_parameters_dict_slots [OF h1 h2 h3 h4] h1 h2 show ?thesis
    by (simp add: rewritten_def)
qed

text \<open>
  The claim as it is written fails for a parameter named \<^verbatim>\<open>"test_name"\<close> when
  \<^verbatim>\<open>add_test_name=True\<close>: the entry of that key holds the test name (a string), not the
  value of the combination.
\<close>

theorem grid_parameters_test_name_key_counterexample:
  "fst (grid_parameters [(''test_name'', [PInt 1])] True True None) =
     [EDict [(''test_name'', PStr ''1'')]] \<and>
   dict_get [(''test_name'', PStr ''1'')] ''test_name'' \<noteq>
     Some (itertools_product (map snd [(''test_name'', [PInt 1])]) ! 0 ! 0)"
  by (simp add: grid_parameters_def dict_get_def str_nat.simps digit_char_def)

text \<open>
  C3 (amended). The runs with \<^verbatim>\<open>add_test_name=True\<close> and with \<^verbatim>\<open>add_test_name=False\<close>
  end in the same way after the same number of items, and the \<open>n\<close>-th items differ in
  one entry only, whose text is obtained by converting the values of the \<open>n\<close>-th
  combination that reached the naming step (rewritten by the filter function, if there is
  one) to text and joining them with \<^verbatim>\<open>"_"\<close>. For a list that entry is a new first
  element. For a dictionary it is the entry of the key \<^verbatim>\<open>"test_name"\<close>, all other keys
  keeping their values: when no parameter is named \<^verbatim>\<open>"test_name"\<close> the key was absent
  and the entry is one more entry, the last; when a parameter is named \<^verbatim>\<open>"test_name"\<close>
  its entry is overwritten in place and the dictionary keeps its keys and its size.
\<close>

theorem grid_parameters_test_name_entry:
  "snd (grid_parameters parameters yield_dict True filter_params_func) =
     snd (grid_parameters parameters yield_dict False filter_params_func) \<and>
   length (fst (grid_parameters parameters yield_dict True filter_params_func)) =
     length (fst (grid_parameters parameters yield_dict False filter_params_func)) \<and>
   length (fst (grid_parameters parameters yield_dict False filter_params_func)) \<le>
     length (rewritten filter_params_func (itertools_product (map snd parameters))) \<and>
   (\<forall>n < length (fst (grid_parameters parameters yield_dict False filter_params_func)).
      (if yield_dict
       then \<exists>d d'.
          fst (grid_parameters parameters yield_dict False filter_params_func) ! n = EDict d \<and>
          fst (grid_parameters parameters yield_dict True filter_params_func) ! n = EDict d' \<and>
          dict_get d' ''test_name'' =
            Some (PStr (str_join ''_'' (map py_str
              (rewritten filter_params_func (itertools_product (map snd parameters)) ! n)))) \<and>
          (\<forall>k. k \<noteq> ''test_name'' \<longrightarrow> dict_get d' k = dict_get d k) \<and>
          (''test_name'' \<notin> fst ` set parameters \<longrightarrow>
             ''test_name'' \<notin> fst ` set d \<and>
             d' = d @ [(''test_name'',
               PStr (str_join ''_'' (map py_str
                 (rewritten filter_params_func (itertools_product (map snd parameters)) ! n))))]) \<and>
          (''test_name'' \<in> fst ` set parameters \<longrightarrow>
             length d' = length d \<and> map fst d' = map fst d)
       else \<exists>l. fst (grid_parameters parameters yield_dict False filter_params_func) ! n = EList l \<and>
                fst (grid_parameters parameters yield_dict True filter_params_func) ! n =
                  EList (PStr (str_join ''_'' (map py_str
                      (rewritten filter_params_func (itertools_product (map snd parameters)) ! n)))
                    # l)))"
proof (cases yield_dict)
  case False
  let ?rw = "rewritten filter_params_func (itertools_product (map snd parameters))"
  have run: "grid_parameters parameters False atn filter_params_func =
      (map (\<lambda>c. EList (if atn then PStr (str_join ''_'' (map py_str c)) # c else c)) ?rw, None)"
    for atn
    unfolding grid_parameters_def
    by (subst grid_loop_rewritten) (rule grid_loop_list)
  show ?thesis
    by (simp add: False run)
next
  case True
  let ?keys = "map fst parameters"
  let ?rw = "rewritten filter_params_func (itertools_product (map snd parameters))"
  let ?tw = "takeWhile (\<lambda>c. length ?keys \<le> length c) ?rw"
  let ?name = "\<lambda>c. PStr (str_join ''_'' (map py_str c))"
  let ?base = "\<lambda>c. dict_of_items (zip ?keys c)"
  let ?named = "\<lambda>c. dict_setitem ''test_name'' (?name c) (?base c)"
  have run: "grid_parameters parameters True atn filter_params_func =
      (map (\<lambda>c. EDict (if atn then ?named c else ?base c)) ?tw,
       if \<forall>c \<in> set ?rw. length ?keys \<le> length c then None else Some IndexError)"
    for atn
    unfolding grid_parameters_def
    by (subst grid_loop_rewritten) (rule grid_loop_dict)
  have item: "\<exists>d d'. map (\<lambda>c. EDict (?base c)) ?tw ! n = EDict d \<and>
      map (\<lambda>c. EDict (?named c)) ?tw ! n = EDict d' \<and>
      dict_get d' ''test_name'' = Some (?name (?rw ! n)) \<and>
      (\<forall>k. k \<noteq> ''test_name'' \<longrightarrow> dict_get d' k = dict_get d k) \<and>
      (''test_name'' \<notin> fst ` set parameters \<longrightarrow>
         ''test_name'' \<notin> fst ` set d \<and> d' = d @ [(''test_name'', ?name (?rw ! n))]) \<and>
      (''test_name'' \<in> fst ` set parameters \<longrightarrow>
         length d' = length d \<and> map fst d' = map fst d)"
    if n: "n < length ?tw" for n
  proof -
    let ?c = "?rw ! n"
    have twn: "?tw ! n = ?c" using n by (rule takeWhile_nth)
    have "?tw ! n \<in> set ?tw" using n by (rule nth_mem)
    then have "length ?keys \<le> length (?tw ! n)" by (blast dest: set_takeWhileD)
    then have long: "length ?keys \<le> length ?c" by (simp only: twn)
    have keys: "fst ` set (?base ?c) = fst ` set parameters"
      using long by (simp add: dict_of_items_zip_keys)
    have 1: "map (\<lambda>c. EDict (?base c)) ?tw ! n = EDict (?base ?c)"
      using n by (simp only: nth_map twn)
    have 2: "map (\<lambda>c. EDict (?named c)) ?tw ! n = EDict (?named ?c)"
      using n by (simp only: nth_map twn)
    have 3: "dict_get (?named ?c) ''test_name'' = Some (?name ?c)"
      by (simp add: dict_get_def map_of_dict_setitem)
    have 4: "\<forall>k. k \<noteq> ''test_name'' \<longrightarrow> dict_get (?named ?c) k = dict_get (?base ?c) k"
      by (simp add: dict_get_def map_of_dict_setitem)
    have 5: "''test_name'' \<notin> fst ` set (?base ?c) \<and>
        ?named ?c = ?base ?c @ [(''test_name'', ?name ?c)]"
      if "''test_name'' \<notin> fst ` set parameters"
      using that keys by (simp add: dict_setitem_fresh)
    have 6: "length (?named ?c) = length (?base ?c) \<and> map fst (?named ?c) = map fst (?base ?c)"
      if "''test_name'' \<in> fst ` set parameters"
    proof -
      from that keys have "''test_name'' \<in> fst ` set (?base ?c)" by simp
      then show ?thesis
        by (simp add: length_dict_setitem_present keys_dict_setitem_present)
    qed
    from 1 2 3 4 5 6 show ?thesis by blast
  qed
  have len: "length ?tw \<le> length ?rw" by (rule length_takeWhile_le)
  show ?thesis
    using item len by (simp add: True run)
qed

theorem grid_parameters_test_name_entry_witness:
  "''test_name'' \<notin> fst ` set [(''a'', [PInt 1, PInt 2])] \<and>
   grid_parameters [(''a'', [PInt 1, PInt 2])] True False
          (Some (\<lambda>c. if c = [PInt 1] then None else Some (c @ [PNone]))) =
     ([EDict [(''a'', PInt 2)]], None) \<and>
   grid_parameters [(''a'', [PInt 1, PInt 2])] True True
          (Some (\<lambda>c. if c = [PInt 1] then None else Some (c @ [PNone]))) =
     ([EDict ([(''a'', PInt 2)] @ [(''test_name'', PStr ''2_None'')])], None) \<and>
   ''test_name'' \<in> fst ` set [(''test_name'', [PInt 1])] \<and>
   length (fst (grid_parameters [(''test_name'', [PInt 1])] True True None)) =
     length (fst (grid_parameters [(''test_name'', [PInt 1])] True False None)) \<and>
   fst (grid_parameters [(''test_name'', [PInt 1])] True True None) ! 0 =
     EDict [(''test_name'', PStr (str_join ''_'' (map py_str
       (rewritten None (itertools_product (map snd [(''test_name'', [PInt 1])])) ! 0))))]"
  using grid_parameters_test_name_entry
    [of "[(''a'', [PInt 1, PInt 2])]" True
        "Some (\<lambda>c. if c = [PInt 1] then None else Some (c @ [PNone]))"]
    grid_parameters_test_name_entry [of "[(''test_name'', [PInt 1])]" True None]
  by (simp add: grid_parameters_def rewritten_def str_nat.simps digit_char_def)

text \<open>
  The claim as it is written fails for a parameter named \<^verbatim>\<open>"test_name"\<close> with
  \<^verbatim>\<open>yield_dict=True\<close>: the entry of that key is overwritten and the dictionary has as many
  entries with \<^verbatim>\<open>add_test_name=True\<close> as without.
\<close>

theorem grid_parameters_test_name_entry_counterexample:
  "grid_parameters [(''test_name'', [PInt 1])] True False None =
     ([EDict [(''test_name'', PInt 1)]], None) \<and>
   grid_parameters [(''test_name'', [PInt 1])] True True None =
     ([EDict [(''test_name'', PStr ''1'')]], None) \<and>
   length [(''test_name'', PStr ''1'')] = length [(''test_name'', PInt 1)]"
  by (simp add: grid_parameters_def str_nat.simps digit_char_def)

text \<open>
  C4. The example of the specification: for \<^verbatim>\<open>{"a": [1, 2], "b": ["x", "y"]}\<close> with
  \<^verbatim>\<open>yield_dict=False\<close>, \<^verbatim>\<open>add_test_name=True\<close> and no filter, exactly the four lists
  \<^verbatim>\<open>["1_x", 1, "x"], ["1_y", 1, "y"], ["2_x", 2, "x"], ["2_y", 2, "y"]\<close> are emitted, in
  that order.
\<close>

theorem grid_parameters_example:
  "grid_parameters [(''a'', [PInt 1, PInt 2]), (''b'', [PStr ''x'', PStr ''y''])] False True None =
     ([EList [PStr ''1_x'', PInt 1, PStr ''x''], EList [PStr ''1_y'', PInt 1, PStr ''y''],
       EList [PStr ''2_x'', PInt 2, PStr ''x''], EList [PStr ''2_y'', PInt 2, PStr ''y'']], None)"
  by (simp add: grid_parameters_def str_nat.simps digit_char_def)

text \<open>
  C6. With the identity as filter function the output is the output without a filter
  function, for every parameter space and both flags.
\<close>

theorem grid_parameters_identity_filter:
  "grid_parameters parameters yield_dict add_test_name (Some (\<lambda>params. Some params)) =
   grid_parameters parameters yield_dict add_test_name None"
proof -
  have "List.map_filter (\<lambda>params. Some params) cs = cs" for cs :: "pyval list list"
    by (induction cs) simp_all
  then show ?thesis
    unfolding grid_parameters_def
    by (subst grid_loop_rewritten) (simp add: rewritten_def)
qed

text \<open>
  C7. When the value list of some parameter is empty, nothing is emitted (and nothing is
  raised), whatever the flags and the filter function are.
\<close>

theorem grid_parameters_empty_factor:
  "\<exists>p \<in> set parameters. snd p = [] \<Longrightarrow>
   grid_parameters parameters yield_dict add_test_name filter_params_func = ([], None)"
proof -
  assume "\<exists>p \<in> set parameters. snd p = []"
  then have "[] \<in> set (map snd parameters)" by force
  then have "itertools_product (map snd parameters) = []"
    by (rule itertools_product_empty)
  then show ?thesis by (simp add: grid_parameters_def)
qed

theorem grid_parameters_empty_factor_witness:
  "(\<exists>p \<in> set [(''a'', [PInt 1, PInt 2]), (''b'', [])]. snd p = []) \<and>
   grid_parameters [(''a'', [PInt 1, PInt 2]), (''b'', [])] True True (Some (\<lambda>c. Some (rev c)))
     = ([], None)"
proof -
  have h: "\<exists>p \<in> set [(''a'', [PInt 1, PInt 2]), (''b'', [] :: pyval list)]. snd p = []" by simp
  show ?thesis
    using h grid_parameters_empty_factor [OF h, of True True "Some (\<lambda>c. Some (rev c))"] by simp
qed

text \<open>
  C5. A filter function that returns \<^verbatim>\<open>None\<close> for every combination gives an empty
  output. In general the combinations for which the filter returns \<^verbatim>\<open>None\<close> are
  dropped: the run is the run of the loop over the other combinations only, and no more
  items are emitted than there are such combinations.
\<close>

theorem grid_parameters_absent_dropped:
  "((\<forall>c \<in> set (itertools_product (map snd parameters)). f c = None) \<longrightarrow>
      grid_parameters parameters yield_dict add_test_name (Some f) = ([], None)) \<and>
   grid_parameters parameters yield_dict add_test_name (Some f) =
     grid_loop (map fst parameters) yield_dict add_test_name (Some f)
       (filter (\<lambda>c. f c \<noteq> None) (itertools_product (map snd parameters))) \<and>
   length (fst (grid_parameters parameters yield_dict add_test_name (Some f))) \<le>
     length (filter (\<lambda>c. f c \<noteq> None) (itertools_product (map snd parameters)))"
proof -
  let ?cs = "itertools_product (map snd parameters)"
  have mf: "List.map_filter f (filter (\<lambda>c. f c \<noteq> None) cs) = List.map_filter f cs"
    for cs :: "pyval list list"
    by (induction cs) (auto split: option.splits)
  have none: "(\<forall>c \<in> set cs. f c = None) \<Longrightarrow> List.map_filter f cs = []"
    for cs :: "pyval list list"
    by (induction cs) simp_all
  have len: "length (List.map_filter f cs) = length (filter (\<lambda>c. f c \<noteq> None) cs)"
    for cs :: "pyval list list"
    by (simp add: List.map_filter_def)
  have 1: "(\<forall>c \<in> set ?cs. f c = None) \<longrightarrow>
      grid_parameters parameters yield_dict add_test_name (Some f) = ([], None)"
    unfolding grid_parameters_def
    by (subst grid_loop_rewritten) (simp add: rewritten_def none)
  have 2: "grid_parameters parameters yield_dict add_test_name (Some f) =
     grid_loop (map fst parameters) yield_dict add_test_name (Some f)
       (filter (\<lambda>c. f c \<noteq> None) ?cs)"
    unfolding grid_parameters_def
    by (subst grid_loop_rewritten, subst (2) grid_loop_rewritten)
       (simp only: rewritten_def option.case mf)
  have bound: "length (fst (grid_loop keys yd atn None cs)) \<le> length cs" for keys yd atn cs
    by (cases yd) (simp_all add: grid_loop_list grid_loop_dict length_takeWhile_le)
  have 3: "length (fst (grid_parameters parameters yield_dict add_test_name (Some f))) \<le>
     length (filter (\<lambda>c. f c \<noteq> None) ?cs)"
  proof -
    have "length (fst (grid_parameters parameters yield_dict add_test_name (Some f))) \<le>
        length (List.map_filter f ?cs)"
      unfolding grid_parameters_def
      by (subst grid_loop_rewritten) (simp add: rewritten_def bound)
    also have "\<dots> = length (filter (\<lambda>c. f c \<noteq> None) ?cs)"
      by (rule len)
    finally show ?thesis .
  qed
  from 1 2 3 show ?thesis by blast
qed

theorem grid_parameters_absent_dropped_witness:
  "list_all (\<lambda>c. (\<lambda>c. None :: pyval list option) c = None)
     (itertools_product (map snd [(''a'', [PInt 1, PInt 2]), (''b'', [PNone])])) \<and>
   grid_parameters [(''a'', [PInt 1, PInt 2]), (''b'', [PNone])] True True (Some (\<lambda>c. None))
     = ([], None)"
  using grid_parameters_absent_dropped
    [of "[(''a'', [PInt 1, PInt 2]), (''b'', [PNone])]" "\<lambda>c. None" True True]
  by simp

text \<open>
  C10. Only \<^verbatim>\<open>None\<close> excludes a combination. When the filter function maps a
  combination of the grid to the empty sequence, then with \<^verbatim>\<open>yield_dict=False\<close> the
  generator raises nothing, emits one item for every combination that the filter did not
  map to \<^verbatim>\<open>None\<close>, and among them the item of the empty sequence: the list holding
  only the empty test name when \<^verbatim>\<open>add_test_name=True\<close>, the empty list otherwise.
  With \<^verbatim>\<open>yield_dict=True\<close> and at least one parameter, the positional lookup in the
  empty sequence is out of bounds: the generator ends with \<^verbatim>\<open>IndexError\<close>, before
  it has emitted an item for every such combination.
\<close>

theorem grid_parameters_empty_rewrite:
  assumes "c \<in> set (itertools_product (map snd parameters))" and "f c = Some []"
  shows "EList (if add_test_name then [PStr ''''] else [])
           \<in> set (fst (grid_parameters parameters False add_test_name (Some f))) \<and>
         snd (grid_parameters parameters False add_test_name (Some f)) = None \<and>
         length (fst (grid_parameters parameters False add_test_name (Some f))) =
           length (filter (\<lambda>c. f c \<noteq> None) (itertools_product (map snd parameters))) \<and>
         (parameters \<noteq> [] \<longrightarrow>
            fill_dict 0 (map fst parameters) [] [] = Inl IndexError \<and>
            snd (grid_parameters parameters True add_test_name (Some f)) = Some IndexError \<and>
            length (fst (grid_parameters parameters True add_test_name (Some f))) <
              length (filter (\<lambda>c. f c \<noteq> None) (itertools_product (map snd parameters))))"
proof -
  let ?cs = "itertools_product (map snd parameters)"
  let ?rw = "List.map_filter f ?cs"
  let ?keys = "map fst parameters"
  have mem: "[] \<in> set ?rw"
    using assms by (auto simp: set_map_filter)
  have lst: "grid_parameters parameters False add_test_name (Some f) =
      (map (\<lambda>c. EList (if add_test_name then PStr (str_join ''_'' (map py_str c)) # c else c)) ?rw,
       None)"
    unfolding grid_parameters_def
    by (subst grid_loop_rewritten) (simp add: rewritten_def grid_loop_list)
  have "(\<lambda>c. EList (if add_test_name then PStr (str_join ''_'' (map py_str c)) # c else c)) []
      \<in> set (fst (grid_parameters parameters False add_test_name (Some f)))"
    unfolding lst fst_conv set_map using mem by (rule imageI)
  then have 1: "EList (if add_test_name then [PStr ''''] else [])
      \<in> set (fst (grid_parameters parameters False add_test_name (Some f)))"
    by (cases add_test_name) simp_all
  have 2: "snd (grid_parameters parameters False add_test_name (Some f)) = None"
    by (simp add: lst)
  have 3: "length (fst (grid_parameters parameters False add_test_name (Some f))) =
      length (filter (\<lambda>c. f c \<noteq> None) ?cs)"
    unfolding lst fst_conv length_map by (rule length_map_filter)
  have 4: "fill_dict 0 ?keys [] [] = Inl IndexError \<and>
      snd (grid_parameters parameters True add_test_name (Some f)) = Some IndexError \<and>
      length (fst (grid_parameters parameters True add_test_name (Some f))) <
        length (filter (\<lambda>c. f c \<noteq> None) ?cs)"
    if ne: "parameters \<noteq> []"
  proof -
    have short: "\<not> length ?keys \<le> length ([] :: pyval list)"
      using ne by simp
    have a: "fill_dict 0 ?keys [] [] = Inl IndexError"
      using ne by (simp add: fill_dict_0)
    have dct: "grid_parameters parameters True add_test_name (Some f) =
        grid_loop ?keys True add_test_name None ?rw"
      unfolding grid_parameters_def
      by (subst grid_loop_rewritten) (simp add: rewritten_def)
    have "\<not> (\<forall>c \<in> set ?rw. length ?keys \<le> length c)"
      using mem short by blast
    then have b: "snd (grid_parameters parameters True add_test_name (Some f)) = Some IndexError"
      unfolding dct grid_loop_dict snd_conv by (rule if_not_P)
    have "length (takeWhile (\<lambda>c. length ?keys \<le> length c) ?rw) < length ?rw"
      using mem short by (rule length_takeWhile_less)
    then have "length (fst (grid_parameters parameters True add_test_name (Some f))) < length ?rw"
      unfolding dct grid_loop_dict fst_conv length_map .
    then have "length (fst (grid_parameters parameters True add_test_name (Some f))) <
        length (filter (\<lambda>c. f c \<noteq> None) ?cs)"
      by (simp only: length_map_filter)
    with a b show ?thesis by blast
  qed
  from 1 2 3 4 show ?thesis by blast
qed

theorem grid_parameters_empty_rewrite_witness:
  "[PInt 2] \<in> set (itertools_product (map snd [(''a'', [PInt 1, PInt 2])])) \<and>
   (\<lambda>c. if c = [PInt 2] then Some [] else Some c) [PInt 2] = Some [] \<and>
   EList [PStr ''''] \<in> set (fst (grid_parameters [(''a'', [PInt 1, PInt 2])] False True
      (Some (\<lambda>c. if c = [PInt 2] then Some [] else Some c)))) \<and>
   snd (grid_parameters [(''a'', [PInt 1, PInt 2])] True True
      (Some (\<lambda>c. if c = [PInt 2] then Some [] else Some c))) = Some IndexError"
  using grid_parameters_empty_rewrite
    [of "[PInt 2]" "[(''a'', [PInt 1, PInt 2])]" "\<lambda>c. if c = [PInt 2] then Some [] else Some c" True]
  by simp

section \<open>Claims about flatten_dict\<close>

text \<open>
  C9. \<open>flatten_dict\<close> neither prefixes nor composes keys. The keys of its result are
  exactly the keys of the leaf entries (entries whose value is not a mapping) at any
  depth, so that the key of a nested mapping is in the result only when it is also the
  key of a leaf; the result has each key once; and the value of a key is the value of its
  last leaf entry in iteration order.
\<close>

theorem flatten_dict_leaves:
  "fst ` set (flatten_dict d) = fst ` set (leaf_items d) \<and>
   distinct (map fst (flatten_dict d)) \<and>
   dict_get (flatten_dict d) = map_of (rev (leaf_items d))"
proof -
  have m: "map_of (flatten_dict d) = map_of (rev (leaf_items d))"
    by (simp add: map_of_dict_of_items flatten_loop_leaf_items)
  have "fst ` set (flatten_dict d) = fst ` set (rev (leaf_items d))"
    using m by (rule map_of_eq_dom)
  then have "fst ` set (flatten_dict d) = fst ` set (leaf_items d)" by simp
  moreover have "distinct (map fst (flatten_dict d))"
    by (simp add: distinct_dict_of_items)
  moreover have "dict_get (flatten_dict d) = map_of (rev (leaf_items d))"
    using m by (simp add: dict_get_def fun_eq_iff)
  ultimately show ?thesis by blast
qed

text \<open>
  An instance: in \<^verbatim>\<open>{"a": {"x": 1, "y": 2}, "x": 3, "b": {"a": {"y": 7}}}\<close> the keys
  \<^verbatim>\<open>"a"\<close> and \<^verbatim>\<open>"b"\<close> only name nested mappings and are dropped, and the later values of
  \<^verbatim>\<open>"x"\<close> and \<^verbatim>\<open>"y"\<close> replace the earlier ones.
\<close>

lemma flatten_dict_example:
  "flatten_dict [(''a'', Mapping [(''x'', Leaf (1::int)), (''y'', Leaf 2)]), (''x'', Leaf 3),
     (''b'', Mapping [(''a'', Mapping [(''y'', Leaf 7)])])] = [(''x'', 3), (''y'', 7)]"
  by (simp add: dict_of_items_def)

end
